theory Spec2Isabelle
  imports Main
begin

section \<open>Values of the machine\<close>

text \<open>
  The library is one class, \<^verbatim>\<open>StateMachine<State, Event>\<close>, in
  \<^verbatim>\<open>src/typed-state-machine.ts\<close>.  States and events are tagged objects:
  both type parameters extend \<^verbatim>\<open>BaseStateOrEvent = { type: string }\<close>.  An extensible
  record gives exactly that: every state or event type is a record scheme over the
  one field \<open>type\<close>.
\<close>

record BaseStateOrEvent =
  type :: string

text \<open>
  The class throws plain \<^verbatim>\<open>Error\<close> objects that carry a message.  The runtime throws
  a \<^verbatim>\<open>TypeError\<close> when a property of \<^verbatim>\<open>undefined\<close> is read, when a value that is not
  a function is called, and when a method of \<^verbatim>\<open>Object.prototype\<close> is called without a
  receiver; its message is the engine's and is left out.
\<close>

datatype error = Error string | TypeError

text \<open>
  A side effect is a zero-argument function that the machine never calls itself: it
  hands it to \<^verbatim>\<open>setTimeout\<close>.  Only its identity matters here, so it is a label.
\<close>

type_synonym sideEffect = string

record 's Transition =
  state :: "'s option"
  sideEffect :: "sideEffect option"

text \<open>
  User callbacks.  \<open>onEnter\<close> and \<open>onExit\<close> callbacks receive the state and return
  nothing; what the machine can observe of them is whether they return (\<open>None\<close>) or
  throw (\<open>Some e\<close>).  A rule (\<^verbatim>\<open>OnEventConfiguration\<close>) receives the argument object
  with the two descriptor constructors and returns a descriptor or throws.
\<close>

type_synonym 's OnEnterOrExitConfiguration = "'s \<Rightarrow> error option"

record ('s, 'e) OnEventArgs =
  args_state :: 's
  args_event :: 'e
  transitionTo :: "'s \<Rightarrow> sideEffect option \<Rightarrow> 's Transition"
  dontTransition :: "sideEffect option \<Rightarrow> 's Transition"

type_synonym ('s, 'e) OnEventConfiguration = "('s, 'e) OnEventArgs \<Rightarrow> error + 's Transition"

section \<open>Objects used as dictionaries\<close>

text \<open>
  \<^verbatim>\<open>_configuration\<close> and the \<^verbatim>\<open>on\<close> table of a state are created as \<^verbatim>\<open>{}\<close> and used
  as dictionaries: written with \<^verbatim>\<open>obj[k] = v\<close>, read with \<^verbatim>\<open>obj[k]\<close>, counted with
  \<^verbatim>\<open>Object.keys\<close>.  Such an object has its own properties (listed here in the order
  of their first assignment; the class reads only their values and their number) and
  a prototype, which is \<^verbatim>\<open>Object.prototype\<close> (\<open>proto = None\<close>) until an assignment to
  the key \<^verbatim>\<open>__proto__\<close> installs the assigned value in its place (\<open>proto = Some v\<close>).
\<close>

record 'v dictionary =
  own :: "(string \<times> 'v) list"
  proto :: "'v option"

definition emptyObject :: "'v dictionary" where
  "emptyObject = \<lparr>own = [], proto = None\<rparr>"

text \<open>The string-keyed members of \<^verbatim>\<open>Object.prototype\<close>.\<close>

definition objectPrototypeNames :: "string list" where
  "objectPrototypeNames =
     [''constructor'', ''__defineGetter__'', ''__defineSetter__'', ''hasOwnProperty'',
      ''__lookupGetter__'', ''__lookupSetter__'', ''isPrototypeOf'', ''propertyIsEnumerable'',
      ''toString'', ''valueOf'', ''__proto__'', ''toLocaleString'']"

text \<open>
  What \<^verbatim>\<open>obj[k]\<close> evaluates to.  An own property wins (\<open>Own\<close>).  Otherwise the read
  goes to the prototype.  With \<^verbatim>\<open>Object.prototype\<close> in place that is the member of
  that name, if there is one (\<open>Builtin\<close>: eleven functions, and for \<^verbatim>\<open>__proto__\<close> the
  object \<^verbatim>\<open>Object.prototype\<close> itself), and \<^verbatim>\<open>undefined\<close> if not.  With an installed
  prototype the key \<^verbatim>\<open>__proto__\<close> reads as the installed value (\<open>Prototype\<close>); any
  other key is looked up in the properties of the installed value, which this model
  does not follow (\<open>Through\<close>).
\<close>

datatype 'v got = Own 'v | Prototype 'v | Builtin string | Through | Undefined

definition get :: "'v dictionary \<Rightarrow> string \<Rightarrow> 'v got" where
  "get obj k =
     (case map_of (own obj) k of
        Some v \<Rightarrow> Own v
      | None \<Rightarrow>
          (case proto obj of
             None \<Rightarrow> if k \<in> set objectPrototypeNames then Builtin k else Undefined
           | Some p \<Rightarrow> if k = ''__proto__'' then Prototype p else Through))"

text \<open>The value of the dictionary's own kind that a read has produced, if it has.\<close>

definition found :: "'v got \<Rightarrow> 'v option" where
  "found g = (case g of Own v \<Rightarrow> Some v | Prototype v \<Rightarrow> Some v | _ \<Rightarrow> None)"

text \<open>
  \<^verbatim>\<open>obj[k] = v\<close>.  For the key \<^verbatim>\<open>__proto__\<close> the setter of \<^verbatim>\<open>Object.prototype\<close> runs:
  the value (an object or a function here) becomes the prototype and no own property
  is made.  For any other key an own property keeps its place and takes the value, and
  a new one is appended (\<open>put\<close>).  \<^verbatim>\<open>Object.keys\<close> lists the own properties.
\<close>

fun put :: "string \<Rightarrow> 'v \<Rightarrow> (string \<times> 'v) list \<Rightarrow> (string \<times> 'v) list" where
  "put k v [] = [(k, v)]"
| "put k v ((k', v') # kvs) =
     (if k' = k then (k, v) # kvs else (k', v') # put k v kvs)"

definition assign :: "string \<Rightarrow> 'v \<Rightarrow> 'v dictionary \<Rightarrow> 'v dictionary" where
  "assign k v obj =
     (if k = ''__proto__'' then obj\<lparr>proto := Some v\<rparr> else obj\<lparr>own := put k v (own obj)\<rparr>)"

definition keys :: "'v dictionary \<Rightarrow> string list" where
  "keys obj = map fst (own obj)"

section \<open>The machine\<close>

record ('s, 'e) StateConfiguration =
  onEnter :: "'s OnEnterOrExitConfiguration option"
  onExit :: "'s OnEnterOrExitConfiguration option"
  on :: "('s, 'e) OnEventConfiguration dictionary"

text \<open>
  A listener is a function object; the registry is a \<^verbatim>\<open>Set\<close>, which compares its
  members by identity.  A listener is therefore a reference, and its code is looked up
  in a table \<open>L\<close> of the function objects.  When called with
  \<open>(previous, current, event)\<close> a listener may call unsubscribe functions it holds
  (each removes one listener from the registry) and then returns or throws.
  Callbacks that call \<^verbatim>\<open>transition\<close> or \<^verbatim>\<open>subscribe\<close> again from inside the machine
  are outside this model.
\<close>

type_synonym Listener = nat

record ListenerRun =
  unsubscribes :: "Listener list"
  throws :: "error option"

type_synonym ('s, 'e) ListenerCode =
  "Listener \<Rightarrow> 's option \<Rightarrow> 's option \<Rightarrow> 'e option \<Rightarrow> ListenerRun"

text \<open>
  Every call of the machine into user code is logged, in order.  The entries for
  \<open>onExit\<close> and \<open>onEnter\<close> also hold what the \<^verbatim>\<open>state\<close> getter of the machine returns
  at the moment of the call.
\<close>

datatype ('s, 'e) call =
    RuleCalled 's 'e
  | OnExitCalled 's "'s option"
  | OnEnterCalled 's "'s option"
  | ListenerCalled Listener "'s option" "'s option" "'e option"

text \<open>
  The four private fields of the class, the log of calls into user code, and the
  host's queue of timers (what \<^verbatim>\<open>setTimeout\<close> has been given, in issue order).
  \<open>currentState\<close> is \<open>None\<close> while the field is \<^verbatim>\<open>undefined\<close>.
\<close>

record ('s, 'e) StateMachine =
  currentState :: "'s option"
  configuration :: "('s, 'e) StateConfiguration dictionary"
  listeners :: "Listener option list"
  scopeStack :: "string list"
  calls :: "('s, 'e) call list"
  timers :: "sideEffect list"

text \<open>
  Once a state definition has been installed as the prototype of \<^verbatim>\<open>_configuration\<close>
  (by \<^verbatim>\<open>state("__proto__", ...)\<close>), or a rule as the prototype of an \<^verbatim>\<open>on\<close> table (by
  \<^verbatim>\<open>on("__proto__", ...)\<close>), reads and writes of keys the table does not own go
  through the properties of that object or function (\<^verbatim>\<open>on\<close>, \<^verbatim>\<open>onEnter\<close>, \<^verbatim>\<open>length\<close>,
  \<^verbatim>\<open>name\<close>, ...).  What the runtime does there is not fixed by the class; it is a
  parameter of the model, and every theorem below holds for each value of it:
  \<open>dispatchThrough\<close> is the rest of a \<open>transition\<close> call whose lookup of the state
  definition or of the rule is such a read, \<open>enterThrough\<close> is the statement that
  invokes \<open>onEnter\<close> when its lookup is such a read, and \<open>writeThrough\<close> is the
  assignment \<^verbatim>\<open>stateConfiguration.on[type] = callback\<close> for a key that the table does
  not own when a function is its prototype.
\<close>

record ('s, 'e) Runtime =
  dispatchThrough ::
    "'e \<Rightarrow> ('s, 'e) StateMachine \<Rightarrow> error option \<times> ('s, 'e) StateMachine"
  enterThrough ::
    "'s \<Rightarrow> ('s, 'e) StateMachine \<Rightarrow> error option \<times> ('s, 'e) StateMachine"
  writeThrough ::
    "string \<Rightarrow> ('s, 'e) OnEventConfiguration \<Rightarrow> ('s, 'e) StateConfiguration
       \<Rightarrow> error option \<times> ('s, 'e) StateConfiguration"

section \<open>The Set of listeners\<close>

text \<open>
  A \<^verbatim>\<open>Set\<close> keeps its entries in a list (ECMA-262, \<^verbatim>\<open>[[SetData]]\<close>): \<^verbatim>\<open>add\<close> appends
  a value that is not yet an entry, \<^verbatim>\<open>delete\<close> overwrites the entry with the marker
  \<^verbatim>\<open>empty\<close> (here \<open>None\<close>), and an iterator walks the list by index, skipping the
  markers and reading the list as it is when it gets there.
\<close>

fun set_add :: "'a \<Rightarrow> 'a option list \<Rightarrow> 'a option list" where
  "set_add v es = (if Some v \<in> set es then es else es @ [Some v])"

fun set_delete :: "'a \<Rightarrow> 'a option list \<Rightarrow> 'a option list" where
  "set_delete v [] = []"
| "set_delete v (e # es) = (if e = Some v then None # es else e # set_delete v es)"

definition members :: "'a option list \<Rightarrow> 'a list" where
  "members es = [l. Some l \<leftarrow> es]"

section \<open>The scope guard\<close>

text \<open>
  \<^verbatim>\<open>unshift\<close> pushes at index 0 and \<^verbatim>\<open>shift\<close> pops there, so the head of the list is
  the top of the stack; \<^verbatim>\<open>_scopeStack[0]\<close> of an empty array is \<^verbatim>\<open>undefined\<close>.
\<close>

definition stackTop :: "string list \<Rightarrow> string option" where
  "stackTop st = (case st of [] \<Rightarrow> None | t # _ \<Rightarrow> Some t)"

definition checkConfigScope :: "('s, 'e) StateMachine \<Rightarrow> error option" where
  "checkConfigScope m =
     (if stackTop (scopeStack m) \<noteq> Some ''config''
      then Some (Error ''Call to `initialState` is allowed only from within the config callback, but not inside a state callback'')
      else None)"

definition checkStateScope :: "('s, 'e) StateMachine \<Rightarrow> string \<Rightarrow> error option" where
  "checkStateScope m name =
     (if stackTop (scopeStack m) \<noteq> Some ''state''
      then Some (Error (''Call to `'' @ name @ ''` is allowed only from within a state callback''))
      else None)"

definition unshift :: "string \<Rightarrow> ('s, 'e) StateMachine \<Rightarrow> ('s, 'e) StateMachine" where
  "unshift tag m = m\<lparr>scopeStack := tag # scopeStack m\<rparr>"

definition shift :: "('s, 'e) StateMachine \<Rightarrow> ('s, 'e) StateMachine" where
  "shift m = m\<lparr>scopeStack := tl (scopeStack m)\<rparr>"

section \<open>The builder\<close>

text \<open>
  The entry points are closures of the constructor.  \<open>initialState\<close> and \<open>state\<close>
  close over the machine; \<open>onEnter\<close>, \<open>onExit\<close> and \<open>on\<close> also close over the local
  object \<^verbatim>\<open>stateConfiguration\<close> of the \<open>state\<close> call that made them, which is passed
  and returned here.  An entry point whose scope check throws leaves everything as it
  was.
\<close>

definition initialState ::
  "'s \<Rightarrow> ('s, 'e) StateMachine \<Rightarrow> error option \<times> ('s, 'e) StateMachine" where
  "initialState s m =
     (case checkConfigScope m of
        Some e \<Rightarrow> (Some e, m)
      | None \<Rightarrow> (None, m\<lparr>currentState := Some s\<rparr>))"

definition onEnter_entry ::
  "'s OnEnterOrExitConfiguration \<Rightarrow> ('s, 'e) StateMachine \<Rightarrow> ('s, 'e) StateConfiguration
     \<Rightarrow> error option \<times> ('s, 'e) StateConfiguration" where
  "onEnter_entry onEnterCallback m stateConfiguration =
     (case checkStateScope m ''onEnter'' of
        Some e \<Rightarrow> (Some e, stateConfiguration)
      | None \<Rightarrow> (None, stateConfiguration\<lparr>onEnter := Some onEnterCallback\<rparr>))"

definition onExit_entry ::
  "'s OnEnterOrExitConfiguration \<Rightarrow> ('s, 'e) StateMachine \<Rightarrow> ('s, 'e) StateConfiguration
     \<Rightarrow> error option \<times> ('s, 'e) StateConfiguration" where
  "onExit_entry onExitCallback m stateConfiguration =
     (case checkStateScope m ''onExit'' of
        Some e \<Rightarrow> (Some e, stateConfiguration)
      | None \<Rightarrow> (None, stateConfiguration\<lparr>onExit := Some onExitCallback\<rparr>))"

text \<open>
  \<^verbatim>\<open>stateConfiguration.on[type] = onEventCallback\<close>.  While \<^verbatim>\<open>Object.prototype\<close> is
  the prototype of the table, and for a key the table owns, and for the key
  \<^verbatim>\<open>__proto__\<close>, this is \<open>assign\<close>.  For another key the assignment consults the
  function that is the prototype (whose \<^verbatim>\<open>name\<close> and \<^verbatim>\<open>length\<close>, for one, are
  read-only).
\<close>

definition on_entry ::
  "('s, 'e) Runtime \<Rightarrow> string \<Rightarrow> ('s, 'e) OnEventConfiguration \<Rightarrow> ('s, 'e) StateMachine
     \<Rightarrow> ('s, 'e) StateConfiguration \<Rightarrow> error option \<times> ('s, 'e) StateConfiguration" where
  "on_entry R eventType onEventCallback m stateConfiguration =
     (case checkStateScope m ''on'' of
        Some e \<Rightarrow> (Some e, stateConfiguration)
      | None \<Rightarrow>
          if get (on stateConfiguration) eventType = Through
          then writeThrough R eventType onEventCallback stateConfiguration
          else (None, stateConfiguration\<lparr>on := assign eventType onEventCallback (on stateConfiguration)\<rparr>))"

text \<open>
  The configuration callback and the state definition callbacks are user code.  What
  they can do to the machine is call the entry points, so each is a script of such
  calls, run until one throws.  Inside a state definition callback the script may call
  its own three entry points (\<open>Own_call\<close>), the two of the enclosing configuration
  callback (\<open>OuterInitialState\<close>, \<open>OuterState\<close>) and entry points it captured from
  the latest finished \<open>state\<close> call for a key (\<open>Captured\<close>: their object is the one
  stored under that key; without such a call only the scope check is left of them).
  The configuration callback may call its own two entry points and captured ones.
\<close>

datatype ('s, 'e) scope_call =
    OnEnter "'s OnEnterOrExitConfiguration"
  | OnExit "'s OnEnterOrExitConfiguration"
  | On string "('s, 'e) OnEventConfiguration"

datatype ('s, 'e) state_call =
    Own_call "('s, 'e) scope_call"
  | Captured string "('s, 'e) scope_call"
  | OuterInitialState 's
  | OuterState string "('s, 'e) state_call list"

datatype ('s, 'e) config_call =
    InitialState 's
  | State string "('s, 'e) state_call list"
  | CapturedCall string "('s, 'e) scope_call"

fun scope_entry ::
  "('s, 'e) Runtime \<Rightarrow> ('s, 'e) scope_call \<Rightarrow> ('s, 'e) StateMachine \<Rightarrow> ('s, 'e) StateConfiguration
     \<Rightarrow> error option \<times> ('s, 'e) StateConfiguration" where
  "scope_entry R (OnEnter cb) m sc = onEnter_entry cb m sc"
| "scope_entry R (OnExit cb) m sc = onExit_entry cb m sc"
| "scope_entry R (On t cb) m sc = on_entry R t cb m sc"

text \<open>\<^verbatim>\<open>const stateConfiguration = { on: {} }\<close>.\<close>

definition newStateConfiguration :: "('s, 'e) StateConfiguration" where
  "newStateConfiguration = \<lparr>onEnter = None, onExit = None, on = emptyObject\<rparr>"

definition captured_entry ::
  "('s, 'e) Runtime \<Rightarrow> string \<Rightarrow> ('s, 'e) scope_call \<Rightarrow> ('s, 'e) StateMachine
     \<Rightarrow> error option \<times> ('s, 'e) StateMachine" where
  "captured_entry R k c m =
     (case found (get (configuration m) k) of
        None \<Rightarrow> (fst (scope_entry R c m newStateConfiguration), m)
      | Some sc \<Rightarrow>
          (case scope_entry R c m sc of
             (r, sc') \<Rightarrow> (r, m\<lparr>configuration := assign k sc' (configuration m)\<rparr>)))"

text \<open>
  \<open>state_entry\<close> is the entry point \<open>state\<close>: the check, a fresh configuration object,
  the definition callback run between \<^verbatim>\<open>unshift("state")\<close> and \<^verbatim>\<open>shift()\<close>, and the
  assignment \<^verbatim>\<open>_configuration[state] = stateConfiguration\<close>.  There is no
  \<^verbatim>\<open>try/finally\<close>: when the callback throws, the stack is not popped and nothing is
  stored.
\<close>

fun run_state_call ::
  "('s, 'e) Runtime \<Rightarrow> ('s, 'e) state_call \<Rightarrow> ('s, 'e) StateMachine \<times> ('s, 'e) StateConfiguration
     \<Rightarrow> error option \<times> ('s, 'e) StateMachine \<times> ('s, 'e) StateConfiguration"
and run_state_calls ::
  "('s, 'e) Runtime \<Rightarrow> ('s, 'e) state_call list \<Rightarrow> ('s, 'e) StateMachine \<times> ('s, 'e) StateConfiguration
     \<Rightarrow> error option \<times> ('s, 'e) StateMachine \<times> ('s, 'e) StateConfiguration"
and state_entry ::
  "('s, 'e) Runtime \<Rightarrow> string \<Rightarrow> ('s, 'e) state_call list \<Rightarrow> ('s, 'e) StateMachine
     \<Rightarrow> error option \<times> ('s, 'e) StateMachine" where
  "run_state_call R (Own_call c) (m, sc) = (case scope_entry R c m sc of (r, sc') \<Rightarrow> (r, m, sc'))"
| "run_state_call R (Captured k c) (m, sc) = (case captured_entry R k c m of (r, m') \<Rightarrow> (r, m', sc))"
| "run_state_call R (OuterInitialState s) (m, sc) = (case initialState s m of (r, m') \<Rightarrow> (r, m', sc))"
| "run_state_call R (OuterState name body) (m, sc) =
     (case state_entry R name body m of (r, m') \<Rightarrow> (r, m', sc))"
| "run_state_calls R [] x = (None, x)"
| "run_state_calls R (c # cs) x =
     (case run_state_call R c x of
        (Some e, x') \<Rightarrow> (Some e, x')
      | (None, x') \<Rightarrow> run_state_calls R cs x')"
| "state_entry R name stateDefinitionCallback m =
     (case checkConfigScope m of
        Some e \<Rightarrow> (Some e, m)
      | None \<Rightarrow>
          (case run_state_calls R stateDefinitionCallback
                  (unshift ''state'' m, newStateConfiguration) of
             (Some e, m', stateConfiguration) \<Rightarrow> (Some e, m')
           | (None, m', stateConfiguration) \<Rightarrow>
               (None, (shift m')\<lparr>configuration :=
                          assign name stateConfiguration (configuration (shift m'))\<rparr>)))"

declare state_entry.simps [simp del]

fun run_config_call ::
  "('s, 'e) Runtime \<Rightarrow> ('s, 'e) config_call \<Rightarrow> ('s, 'e) StateMachine
     \<Rightarrow> error option \<times> ('s, 'e) StateMachine" where
  "run_config_call R (InitialState s) m = initialState s m"
| "run_config_call R (State name body) m = state_entry R name body m"
| "run_config_call R (CapturedCall k c) m = captured_entry R k c m"

fun run_config_calls ::
  "('s, 'e) Runtime \<Rightarrow> ('s, 'e) config_call list \<Rightarrow> ('s, 'e) StateMachine
     \<Rightarrow> error option \<times> ('s, 'e) StateMachine" where
  "run_config_calls R [] m = (None, m)"
| "run_config_calls R (c # cs) m =
     (case run_config_call R c m of
        (Some e, m') \<Rightarrow> (Some e, m')
      | (None, m') \<Rightarrow> run_config_calls R cs m')"

section \<open>The constructor\<close>

definition newStateMachine :: "('s, 'e) StateMachine" where
  "newStateMachine =
     \<lparr>currentState = None, configuration = emptyObject, listeners = [], scopeStack = [],
      calls = [], timers = []\<rparr>"

text \<open>
  \<^verbatim>\<open>this._configuration[this._currentState.type]?.onEnter?.({ state })\<close>, the last
  statement of the constructor and of the transition block of \<open>transition\<close>.  Nothing
  happens when the read gives \<^verbatim>\<open>undefined\<close>, or a member of \<^verbatim>\<open>Object.prototype\<close>
  (none of them has a property \<^verbatim>\<open>onEnter\<close>), or a state definition without the
  callback.
\<close>

definition invokeOnEnter ::
  "('z BaseStateOrEvent_scheme, 'e) Runtime \<Rightarrow> 'z BaseStateOrEvent_scheme
     \<Rightarrow> ('z BaseStateOrEvent_scheme, 'e) StateMachine
     \<Rightarrow> error option \<times> ('z BaseStateOrEvent_scheme, 'e) StateMachine" where
  "invokeOnEnter R s m =
     (case get (configuration m) (type s) of
        Through \<Rightarrow> enterThrough R s m
      | g \<Rightarrow>
          (case found g of
             None \<Rightarrow> (None, m)
           | Some stateDefinition \<Rightarrow>
               (case onEnter stateDefinition of
                  None \<Rightarrow> (None, m)
                | Some cb \<Rightarrow> (cb s, m\<lparr>calls := calls m @ [OnEnterCalled s (currentState m)]\<rparr>))))"

text \<open>
  The argument is \<open>None\<close> when \<^verbatim>\<open>typeof configCallback !== "function"\<close>, and the script
  of the callback otherwise.  The result is what the \<^verbatim>\<open>new\<close> expression throws, if it
  throws, and the object as the constructor left it.
\<close>

definition constructor ::
  "('z BaseStateOrEvent_scheme, 'e) Runtime
     \<Rightarrow> ('z BaseStateOrEvent_scheme, 'e) config_call list option
     \<Rightarrow> error option \<times> ('z BaseStateOrEvent_scheme, 'e) StateMachine" where
  "constructor R configCallback =
     (case configCallback of
        None \<Rightarrow>
          (Some (Error ''The StateMachine constructor expects a callback as the first argument''),
           newStateMachine)
      | Some script \<Rightarrow>
          (case run_config_calls R script (unshift ''config'' newStateMachine) of
             (Some e, m) \<Rightarrow> (Some e, m)
           | (None, m1) \<Rightarrow>
               (let m = shift m1 in
                case currentState m of
                  None \<Rightarrow> (Some (Error ''No initial state provided''), m)
                | Some s \<Rightarrow>
                    if length (keys (configuration m)) = 0
                    then (Some (Error ''No state definition was provided''), m)
                    else invokeOnEnter R s m)))"

section \<open>Dispatch\<close>

text \<open>\<^verbatim>\<open>stateDefinition.onExit?.({ state: this._currentState })\<close>.\<close>

definition invokeOnExit ::
  "('s, 'e) StateConfiguration \<Rightarrow> 's \<Rightarrow> ('s, 'e) StateMachine
     \<Rightarrow> error option \<times> ('s, 'e) StateMachine" where
  "invokeOnExit stateDefinition s m =
     (case onExit stateDefinition of
        None \<Rightarrow> (None, m)
      | Some cb \<Rightarrow> (cb s, m\<lparr>calls := calls m @ [OnExitCalled s (currentState m)]\<rparr>))"

text \<open>The function that \<open>subscribe\<close> returns for a listener.\<close>

definition unsubscribe :: "Listener \<Rightarrow> ('s, 'e) StateMachine \<Rightarrow> ('s, 'e) StateMachine" where
  "unsubscribe listener m = m\<lparr>listeners := set_delete listener (listeners m)\<rparr>"

text \<open>One call \<^verbatim>\<open>listener(previous, current, event)\<close>: the log entry, then what the
  listener does.\<close>

definition invokeListener ::
  "('s, 'e) ListenerCode \<Rightarrow> Listener \<Rightarrow> 's option \<Rightarrow> 's option \<Rightarrow> 'e option
     \<Rightarrow> ('s, 'e) StateMachine \<Rightarrow> error option \<times> ('s, 'e) StateMachine" where
  "invokeListener L listener previous current event m =
     (let r = L listener previous current event in
      (throws r,
       fold unsubscribe (unsubscribes r)
         (m\<lparr>calls := calls m @ [ListenerCalled listener previous current event]\<rparr>)))"

lemma length_set_delete: "length (set_delete v es) = length es"
  by (induction es) auto

lemma length_fold_unsubscribe:
  "length (listeners (fold unsubscribe us m)) = length (listeners m)"
  by (induction us arbitrary: m) (auto simp: unsubscribe_def length_set_delete)

lemma length_invokeListener:
  "length (listeners (snd (invokeListener L l p c ev m))) = length (listeners m)"
  by (simp add: invokeListener_def Let_def length_fold_unsubscribe)

text \<open>
  \<^verbatim>\<open>for (const listener of this._listeners) listener(previousState, ..., event)\<close>:
  the iterator is at \<open>index\<close>; it stops at the end of the list as it is then, skips an
  entry that is \<^verbatim>\<open>empty\<close> when it gets there, and a listener that throws ends the
  loop.
\<close>

function notifyListeners ::
  "('s, 'e) ListenerCode \<Rightarrow> 's option \<Rightarrow> 's option \<Rightarrow> 'e option \<Rightarrow> nat
     \<Rightarrow> ('s, 'e) StateMachine \<Rightarrow> error option \<times> ('s, 'e) StateMachine" where
  "notifyListeners L previous current event index m =
     (if index < length (listeners m)
      then (case listeners m ! index of
              None \<Rightarrow> notifyListeners L previous current event (Suc index) m
            | Some listener \<Rightarrow>
                (case invokeListener L listener previous current event m of
                   (Some e, m') \<Rightarrow> (Some e, m')
                 | (None, m') \<Rightarrow> notifyListeners L previous current event (Suc index) m'))
      else (None, m))"
  by pat_completeness auto
termination
proof (relation "measure (\<lambda>(L, previous, current, event, index, m). length (listeners m) - index)")
  show "wf (measure (\<lambda>(L, previous, current, event, index, m). length (listeners m) - index))"
    by simp
next
  fix L :: "('s, 'e) ListenerCode" and previous current :: "'s option" and event :: "'e option"
    and index :: nat and m :: "('s, 'e) StateMachine"
  assume "index < length (listeners m)"
  then show "((L, previous, current, event, Suc index, m), (L, previous, current, event, index, m))
      \<in> measure (\<lambda>(L, previous, current, event, index, m). length (listeners m) - index)"
    by simp
next
  fix L :: "('s, 'e) ListenerCode" and previous current :: "'s option" and event :: "'e option"
    and index :: nat and m m' :: "('s, 'e) StateMachine" and listener x
  assume lt: "index < length (listeners m)"
    and x: "(x, m') = invokeListener L listener previous current event m"
  have "length (listeners m') = length (listeners m)"
    using length_invokeListener [of L listener previous current event m] x [symmetric] by simp
  with lt show "((L, previous, current, event, Suc index, m'), (L, previous, current, event, index, m))
      \<in> measure (\<lambda>(L, previous, current, event, index, m). length (listeners m) - index)"
    by simp
qed

declare notifyListeners.simps [simp del]

text \<open>
  \<open>transition\<close>, statement by statement, in four parts.  \<open>onEventArgs\<close> is the object
  passed to the rule; its two constructors are the arrow functions of the source
  (\<^verbatim>\<open>sideEffect ?? null\<close> keeps a given side effect and turns a missing one into
  \<^verbatim>\<open>null\<close>).  A rule has no handle on the machine in this model, so
  \<^verbatim>\<open>this._currentState\<close> is still the state read in the first line when
  \<open>previousState\<close> is taken and \<open>onExit\<close> is called.  Each user callback that throws
  ends the call there, with everything done so far left in place.
\<close>

definition onEventArgs :: "'s \<Rightarrow> 'e \<Rightarrow> ('s, 'e) OnEventArgs" where
  "onEventArgs cur event =
     \<lparr>args_state = cur, args_event = event,
      transitionTo = (\<lambda>state sideEffect. \<lparr>state = Some state, sideEffect = sideEffect\<rparr>),
      dontTransition = (\<lambda>sideEffect. \<lparr>state = None, sideEffect = sideEffect\<rparr>)\<rparr>"

text \<open>
  From \<^verbatim>\<open>const previousState = this._currentState\<close> to the end, for the values
  \<^verbatim>\<open>{ state, sideEffect }\<close> taken from what the rule returned: the transition block
  when \<^verbatim>\<open>state !== null\<close>, the loop over the listeners with \<^verbatim>\<open>state ?? previousState\<close>,
  and \<^verbatim>\<open>setTimeout\<close> when there is a side effect.
\<close>

definition complete ::
  "('z BaseStateOrEvent_scheme, 'y BaseStateOrEvent_scheme) Runtime
     \<Rightarrow> ('z BaseStateOrEvent_scheme, 'y BaseStateOrEvent_scheme) ListenerCode
     \<Rightarrow> ('z BaseStateOrEvent_scheme, 'y BaseStateOrEvent_scheme) StateConfiguration
     \<Rightarrow> 'y BaseStateOrEvent_scheme
     \<Rightarrow> 'z BaseStateOrEvent_scheme Transition
     \<Rightarrow> 'z BaseStateOrEvent_scheme
     \<Rightarrow> ('z BaseStateOrEvent_scheme, 'y BaseStateOrEvent_scheme) StateMachine
     \<Rightarrow> error option \<times> ('z BaseStateOrEvent_scheme, 'y BaseStateOrEvent_scheme) StateMachine" where
  "complete R L stateDefinition event descriptor previousState m1 =
     (case (case state descriptor of
              None \<Rightarrow> (None, m1)
            | Some next \<Rightarrow>
                (case invokeOnExit stateDefinition previousState m1 of
                   (Some e, m2) \<Rightarrow> (Some e, m2)
                 | (None, m2) \<Rightarrow> invokeOnEnter R next (m2\<lparr>currentState := Some next\<rparr>))) of
        (Some e, m3) \<Rightarrow> (Some e, m3)
      | (None, m3) \<Rightarrow>
     (case notifyListeners L (Some previousState)
             (Some (case state descriptor of None \<Rightarrow> previousState | Some next \<Rightarrow> next))
             (Some event) 0 m3 of
        (Some e, m4) \<Rightarrow> (Some e, m4)
      | (None, m4) \<Rightarrow>
     (case sideEffect descriptor of
        None \<Rightarrow> (None, m4)
      | Some effect \<Rightarrow> (None, m4\<lparr>timers := timers m4 @ [effect]\<rparr>))))"

text \<open>
  \<^verbatim>\<open>const { state, sideEffect } = onEvent({ state: this._currentState, event, ... })\<close>
  for a rule of the user: it throws, or the call goes on with its descriptor.
\<close>

definition callRule ::
  "('z BaseStateOrEvent_scheme, 'y BaseStateOrEvent_scheme) Runtime
     \<Rightarrow> ('z BaseStateOrEvent_scheme, 'y BaseStateOrEvent_scheme) ListenerCode
     \<Rightarrow> ('z BaseStateOrEvent_scheme, 'y BaseStateOrEvent_scheme) StateConfiguration
     \<Rightarrow> ('z BaseStateOrEvent_scheme, 'y BaseStateOrEvent_scheme) OnEventConfiguration
     \<Rightarrow> 'z BaseStateOrEvent_scheme
     \<Rightarrow> 'y BaseStateOrEvent_scheme
     \<Rightarrow> ('z BaseStateOrEvent_scheme, 'y BaseStateOrEvent_scheme) StateMachine
     \<Rightarrow> error option \<times> ('z BaseStateOrEvent_scheme, 'y BaseStateOrEvent_scheme) StateMachine" where
  "callRule R L stateDefinition onEvent cur event m =
     (case onEvent (onEventArgs cur event) of
        Inl e \<Rightarrow> (Some e, m\<lparr>calls := calls m @ [RuleCalled cur event]\<rparr>)
      | Inr descriptor \<Rightarrow>
          complete R L stateDefinition event descriptor cur
            (m\<lparr>calls := calls m @ [RuleCalled cur event]\<rparr>))"

text \<open>
  \<^verbatim>\<open>const onEvent = stateDefinition.on[event.type]; if (!onEvent) return;\<close> and the
  call.  When the table does not own the key but \<^verbatim>\<open>Object.prototype\<close> has a member of
  that name, \<open>onEvent\<close> is that member, it is truthy, and it is called as a function
  without a receiver:
  \<^item> \<^verbatim>\<open>constructor\<close> is \<^verbatim>\<open>Object\<close>, which returns its argument, the object built for the
    rule: \<^verbatim>\<open>state\<close> is its property \<^verbatim>\<open>state\<close>, the current state, and \<^verbatim>\<open>sideEffect\<close> is
    \<^verbatim>\<open>undefined\<close>;
  \<^item> \<^verbatim>\<open>toString\<close> returns a string: \<^verbatim>\<open>state\<close> and \<^verbatim>\<open>sideEffect\<close> are \<^verbatim>\<open>undefined\<close>, and
    since \<^verbatim>\<open>undefined !== null\<close> the transition block runs: \<open>onExit\<close> is called,
    \<^verbatim>\<open>_currentState\<close> becomes \<^verbatim>\<open>undefined\<close>, and reading \<^verbatim>\<open>state.type\<close> throws;
  \<^item> the other methods throw a \<^verbatim>\<open>TypeError\<close> because they have no receiver, and the
    call of the object read under \<^verbatim>\<open>__proto__\<close> throws one because it is not a
    function.
\<close>

definition dispatch ::
  "('z BaseStateOrEvent_scheme, 'y BaseStateOrEvent_scheme) Runtime
     \<Rightarrow> ('z BaseStateOrEvent_scheme, 'y BaseStateOrEvent_scheme) ListenerCode
     \<Rightarrow> ('z BaseStateOrEvent_scheme, 'y BaseStateOrEvent_scheme) StateConfiguration
     \<Rightarrow> 'z BaseStateOrEvent_scheme
     \<Rightarrow> 'y BaseStateOrEvent_scheme
     \<Rightarrow> ('z BaseStateOrEvent_scheme, 'y BaseStateOrEvent_scheme) StateMachine
     \<Rightarrow> error option \<times> ('z BaseStateOrEvent_scheme, 'y BaseStateOrEvent_scheme) StateMachine" where
  "dispatch R L stateDefinition cur event m =
     (case get (on stateDefinition) (type event) of
        Undefined \<Rightarrow> (None, m)
      | Through \<Rightarrow> dispatchThrough R event m
      | Own onEvent \<Rightarrow> callRule R L stateDefinition onEvent cur event m
      | Prototype onEvent \<Rightarrow> callRule R L stateDefinition onEvent cur event m
      | Builtin name \<Rightarrow>
          if name = ''constructor''
          then complete R L stateDefinition event \<lparr>state = Some cur, sideEffect = None\<rparr> cur m
          else if name = ''toString''
          then (case invokeOnExit stateDefinition cur m of
                  (Some e, m2) \<Rightarrow> (Some e, m2)
                | (None, m2) \<Rightarrow> (Some TypeError, m2\<lparr>currentState := None\<rparr>))
          else (Some TypeError, m))"

text \<open>
  \<^verbatim>\<open>const stateDefinition = this._configuration[this._currentState.type];
  if (!stateDefinition) return;\<close> and the rest.  Reading \<^verbatim>\<open>type\<close> of a current state
  that is \<^verbatim>\<open>undefined\<close> throws.  A member of \<^verbatim>\<open>Object.prototype\<close> read in place of a
  state definition is truthy and has no property \<^verbatim>\<open>on\<close>, so that
  \<^verbatim>\<open>stateDefinition.on[event.type]\<close> throws.
\<close>

definition transition ::
  "('z BaseStateOrEvent_scheme, 'y BaseStateOrEvent_scheme) Runtime
     \<Rightarrow> ('z BaseStateOrEvent_scheme, 'y BaseStateOrEvent_scheme) ListenerCode
     \<Rightarrow> 'y BaseStateOrEvent_scheme
     \<Rightarrow> ('z BaseStateOrEvent_scheme, 'y BaseStateOrEvent_scheme) StateMachine
     \<Rightarrow> error option \<times> ('z BaseStateOrEvent_scheme, 'y BaseStateOrEvent_scheme) StateMachine" where
  "transition R L event m =
     (case currentState m of
        None \<Rightarrow> (Some TypeError, m)
      | Some cur \<Rightarrow>
          (case get (configuration m) (type cur) of
             Undefined \<Rightarrow> (None, m)
           | Builtin name \<Rightarrow> (Some TypeError, m)
           | Through \<Rightarrow> dispatchThrough R event m
           | Own stateDefinition \<Rightarrow> dispatch R L stateDefinition cur event m
           | Prototype stateDefinition \<Rightarrow> dispatch R L stateDefinition cur event m))"

section \<open>The observer registry\<close>

text \<open>
  \<open>subscribe\<close>: \<^verbatim>\<open>this._listeners.add(listener)\<close>, then the call
  \<^verbatim>\<open>listener(null, this._currentState, null)\<close>.  The function it returns is
  \<open>unsubscribe listener\<close>.
\<close>

definition subscribe ::
  "('s, 'e) ListenerCode \<Rightarrow> Listener \<Rightarrow> ('s, 'e) StateMachine
     \<Rightarrow> error option \<times> ('s, 'e) StateMachine" where
  "subscribe L listener m =
     invokeListener L listener None (currentState m) None
       (m\<lparr>listeners := set_add listener (listeners m)\<rparr>)"

section \<open>Vocabulary of the properties\<close>

text \<open>\<open>isNotification l\<close> picks the log entries that are calls of the listener \<open>l\<close>.\<close>

fun isNotification :: "Listener \<Rightarrow> ('s, 'e) call \<Rightarrow> bool" where
  "isNotification l (ListenerCalled l' p c ev) = (l' = l)"
| "isNotification l (RuleCalled s ev) = False"
| "isNotification l (OnExitCalled s c) = False"
| "isNotification l (OnEnterCalled s c) = False"

text \<open>
  A round of notifications with the arguments \<open>(p, c, ev)\<close>.  The call of listener
  \<open>k\<close> \<open>stops\<close> listener \<open>l\<close> when \<open>k\<close> throws (which ends the round) or calls the
  unsubscribe function of \<open>l\<close>.  \<open>notified\<close> lists the listeners that the round calls
  when \<open>ms\<close> are the members in registry order: the first member, then, of the members
  that it has not stopped, again the first, and so on.  \<open>notifiedThrows\<close> is how such a
  round ends: only the last listener called can have thrown.  \<open>before ms k l\<close> says
  that \<open>k\<close> comes before \<open>l\<close> in \<open>ms\<close>.
\<close>

definition stops ::
  "('s, 'e) ListenerCode \<Rightarrow> 's option \<Rightarrow> 's option \<Rightarrow> 'e option \<Rightarrow> Listener \<Rightarrow> Listener \<Rightarrow> bool" where
  "stops L p c ev k l \<longleftrightarrow>
     throws (L k p c ev) \<noteq> None \<or> l \<in> set (unsubscribes (L k p c ev))"

function notified ::
  "('s, 'e) ListenerCode \<Rightarrow> 's option \<Rightarrow> 's option \<Rightarrow> 'e option \<Rightarrow> Listener list \<Rightarrow> Listener list" where
  "notified L p c ev [] = []"
| "notified L p c ev (k # ms) = k # notified L p c ev (filter (\<lambda>l. \<not> stops L p c ev k l) ms)"
  by pat_completeness auto
termination
  by (relation "measure (\<lambda>(L, p, c, ev, ms). length ms)") (auto simp: less_Suc_eq_le)

definition notifiedThrows ::
  "('s, 'e) ListenerCode \<Rightarrow> 's option \<Rightarrow> 's option \<Rightarrow> 'e option \<Rightarrow> Listener list \<Rightarrow> error option" where
  "notifiedThrows L p c ev ms =
     (case notified L p c ev ms of [] \<Rightarrow> None | k # ks \<Rightarrow> throws (L (last (k # ks)) p c ev))"


text \<open>
  For a dispatch whose rule returned \<open>descriptor\<close> from state \<open>a\<close>:
  \<open>stateAfter\<close> is \<^verbatim>\<open>state ?? previousState\<close>; \<open>entered m b\<close> is the \<open>onEnter\<close>
  callback that the machine calls when it enters \<open>b\<close>, if it calls one;
  \<open>callbacksReturn\<close> says that the \<open>onExit\<close> callback of the state left and the
  \<open>onEnter\<close> callback of the state entered return normally, where the descriptor
  names a next state and they are registered (and that the lookup for the state
  entered does not go through an installed prototype); \<open>moveCalls\<close> are the log
  entries of those two calls.  \<open>newCalls m m'\<close> is what the log of \<open>m'\<close> holds beyond
  that of \<open>m\<close>.
\<close>

definition entered ::
  "('z BaseStateOrEvent_scheme, 'e) StateMachine \<Rightarrow> 'z BaseStateOrEvent_scheme
     \<Rightarrow> 'z BaseStateOrEvent_scheme OnEnterOrExitConfiguration option" where
  "entered m b =
     (case found (get (configuration m) (type b)) of None \<Rightarrow> None | Some sd \<Rightarrow> onEnter sd)"


definition exitCalls :: "('s, 'e) StateConfiguration \<Rightarrow> 's \<Rightarrow> ('s, 'e) call list" where
  "exitCalls stateDefinition a =
     (case onExit stateDefinition of None \<Rightarrow> [] | Some cb \<Rightarrow> [OnExitCalled a (Some a)])"


definition enterCalls ::
  "('z BaseStateOrEvent_scheme, 'e) StateMachine \<Rightarrow> 'z BaseStateOrEvent_scheme
     \<Rightarrow> ('z BaseStateOrEvent_scheme, 'e) call list" where
  "enterCalls m b = (case entered m b of None \<Rightarrow> [] | Some cb \<Rightarrow> [OnEnterCalled b (Some b)])"


definition moveCalls ::
  "('z BaseStateOrEvent_scheme, 'e) StateMachine \<Rightarrow> ('z BaseStateOrEvent_scheme, 'e) StateConfiguration
     \<Rightarrow> 'z BaseStateOrEvent_scheme \<Rightarrow> 'z BaseStateOrEvent_scheme Transition
     \<Rightarrow> ('z BaseStateOrEvent_scheme, 'e) call list" where
  "moveCalls m stateDefinition a descriptor =
     (case state descriptor of
        None \<Rightarrow> []
      | Some b \<Rightarrow> exitCalls stateDefinition a @ enterCalls m b)"


definition newCalls :: "('s, 'e) StateMachine \<Rightarrow> ('s, 'e) StateMachine \<Rightarrow> ('s, 'e) call list" where
  "newCalls m m' = drop (length (calls m)) (calls m')"

text \<open>
  \<open>sameHost m m'\<close>: the log, the registry and the timers of \<open>m'\<close> are those of \<open>m\<close>.
  \<open>quotedName\<close> is the name that an error message of the scope guard puts between
  backquotes.
\<close>

definition sameHost :: "('s, 'e) StateMachine \<Rightarrow> ('s, 'e) StateMachine \<Rightarrow> bool" where
  "sameHost m m' \<longleftrightarrow> calls m' = calls m \<and> listeners m' = listeners m \<and> timers m' = timers m"

definition quotedName :: "string \<Rightarrow> string" where
  "quotedName msg =
     takeWhile (\<lambda>ch. ch \<noteq> CHR 0x60) (tl (dropWhile (\<lambda>ch. ch \<noteq> CHR 0x60) msg))"

text \<open>\<open>properSet\<close>: no listener is an entry of the registry twice.\<close>

definition properSet :: "('s, 'e) StateMachine \<Rightarrow> bool" where
  "properSet m \<longleftrightarrow> distinct (members (listeners m))"

text \<open>\<open>keepsSet R\<close>: what the runtime does through an installed prototype keeps that.\<close>

definition keepsSet :: "('s, 'e) Runtime \<Rightarrow> bool" where
  "keepsSet R \<longleftrightarrow>
     (\<forall>event m. properSet m \<longrightarrow> properSet (snd (dispatchThrough R event m))) \<and>
     (\<forall>s m. properSet m \<longrightarrow> properSet (snd (enterThrough R s m)))"

section \<open>An example machine\<close>

text \<open>
  The examples never read or write through an installed prototype, so any value of
  the runtime parameter gives the same results.  This one is what the runtime does
  for a key that is no property of the installed object either: the read gives
  \<^verbatim>\<open>undefined\<close> (the dispatch returns at once, no \<open>onEnter\<close> callback is called),
  and the assignment makes an own property.
\<close>

definition plainRuntime :: "(BaseStateOrEvent, BaseStateOrEvent) Runtime" where
  "plainRuntime =
     \<lparr>dispatchThrough = (\<lambda>event m. (None, m)),
      enterThrough = (\<lambda>s m. (None, m)),
      writeThrough = (\<lambda>k rule sc. (None, sc\<lparr>on := (on sc)\<lparr>own := put k rule (own (on sc))\<rparr>\<rparr>))\<rparr>"

text \<open>
  A machine in the style of the repository's tests: states and events carry their
  discriminant only.  \<open>state1\<close> has both callbacks and four rules: \<open>action1\<close> moves
  to \<open>state2\<close> with a side effect, \<open>fail\<close> throws, \<open>leave\<close> moves to \<open>state3\<close>,
  which is never defined, and \<open>trap\<close> moves to \<open>state4\<close>.  \<open>state2\<close> has an
  \<open>onEnter\<close> callback and an \<open>onExit\<close> callback that throws, a rule that stays, one
  that moves back to \<open>state1\<close> and one that moves to \<open>state3\<close>.  The \<open>onEnter\<close>
  callback of \<open>state4\<close> throws.
\<close>

definition tagged :: "string \<Rightarrow> BaseStateOrEvent" where
  "tagged name = \<lparr>type = name\<rparr>"

definition state1Rules :: "(string \<times> (BaseStateOrEvent, BaseStateOrEvent) OnEventConfiguration) list" where
  "state1Rules =
     [(''action1'', \<lambda>args. Inr (transitionTo args (tagged ''state2'') (Some ''sideEffect1''))),
      (''fail'', \<lambda>args. Inl (Error ''rule failed'')),
      (''leave'', \<lambda>args. Inr (transitionTo args (tagged ''state3'') None)),
      (''trap'', \<lambda>args. Inr (transitionTo args (tagged ''state4'') None))]"

definition state1Definition :: "(BaseStateOrEvent, BaseStateOrEvent) StateConfiguration" where
  "state1Definition =
     \<lparr>onEnter = Some (\<lambda>s. None), onExit = Some (\<lambda>s. None),
      on = \<lparr>own = state1Rules, proto = None\<rparr>\<rparr>"

definition state2Rules :: "(string \<times> (BaseStateOrEvent, BaseStateOrEvent) OnEventConfiguration) list" where
  "state2Rules =
     [(''action2'', \<lambda>args. Inr (dontTransition args None)),
      (''back'', \<lambda>args. Inr (transitionTo args (tagged ''state1'') None)),
      (''leave'', \<lambda>args. Inr (transitionTo args (tagged ''state3'') None))]"

definition state2Definition :: "(BaseStateOrEvent, BaseStateOrEvent) StateConfiguration" where
  "state2Definition =
     \<lparr>onEnter = Some (\<lambda>s. None), onExit = Some (\<lambda>s. Some (Error ''exit failed'')),
      on = \<lparr>own = state2Rules, proto = None\<rparr>\<rparr>"

definition state4Definition :: "(BaseStateOrEvent, BaseStateOrEvent) StateConfiguration" where
  "state4Definition =
     \<lparr>onEnter = Some (\<lambda>s. Some (Error ''enter failed'')), onExit = None, on = emptyObject\<rparr>"

text \<open>The state definition callback that registers what a definition holds.\<close>

definition definitionScript ::
  "(BaseStateOrEvent, BaseStateOrEvent) StateConfiguration
     \<Rightarrow> (BaseStateOrEvent, BaseStateOrEvent) state_call list" where
  "definitionScript sd =
     (case onEnter sd of None \<Rightarrow> [] | Some cb \<Rightarrow> [Own_call (OnEnter cb)]) @
     (case onExit sd of None \<Rightarrow> [] | Some cb \<Rightarrow> [Own_call (OnExit cb)]) @
     map (\<lambda>(t, rule). Own_call (On t rule)) (own (on sd))"

definition exampleConfig :: "(BaseStateOrEvent, BaseStateOrEvent) config_call list" where
  "exampleConfig =
     [InitialState (tagged ''state1''),
      State ''state1'' (definitionScript state1Definition),
      State ''state2'' (definitionScript state2Definition),
      State ''state4'' (definitionScript state4Definition)]"

definition exampleTable :: "(BaseStateOrEvent, BaseStateOrEvent) StateConfiguration dictionary" where
  "exampleTable =
     \<lparr>own = [(''state1'', state1Definition), (''state2'', state2Definition),
             (''state4'', state4Definition)],
      proto = None\<rparr>"

definition exampleMachine :: "(BaseStateOrEvent, BaseStateOrEvent) StateMachine" where
  "exampleMachine = snd (constructor plainRuntime (Some exampleConfig))"

text \<open>
  Of the listeners, number 1 calls the unsubscribe function of number 2 whenever it is
  notified of a dispatch, number 5 that of number 4, number 3 throws, and number 6
  calls its own unsubscribe function and then throws; all others only return.
\<close>

definition exampleListeners :: "(BaseStateOrEvent, BaseStateOrEvent) ListenerCode" where
  "exampleListeners l p c ev =
     (if l = 1 \<and> ev \<noteq> None then \<lparr>unsubscribes = [2], throws = None\<rparr>
      else if l = 5 \<and> ev \<noteq> None then \<lparr>unsubscribes = [4], throws = None\<rparr>
      else if l = 3 \<and> ev \<noteq> None then \<lparr>unsubscribes = [], throws = Some (Error ''listener failed'')\<rparr>
      else if l = 6 \<and> ev \<noteq> None then \<lparr>unsubscribes = [6], throws = Some (Error ''listener failed'')\<rparr>
      else \<lparr>unsubscribes = [], throws = None\<rparr>)"

text \<open>The example machine after \<open>subscribe\<close> of listener 7.\<close>

definition exampleSubscribed :: "(BaseStateOrEvent, BaseStateOrEvent) StateMachine" where
  "exampleSubscribed = snd (subscribe exampleListeners 7 exampleMachine)"






text \<open>
  The machine with listener 7 after the event \<open>leave\<close>: in \<open>state3\<close>, which has no
  definition.  And after the event \<open>action1\<close>: in \<open>state2\<close>, whose \<open>onExit\<close>
  callback throws.
\<close>

definition strandedMachine :: "(BaseStateOrEvent, BaseStateOrEvent) StateMachine" where
  "strandedMachine =
     snd (transition plainRuntime exampleListeners (tagged ''leave'') exampleSubscribed)"



definition nestedStateConfig :: "(BaseStateOrEvent, BaseStateOrEvent) config_call list" where
  "nestedStateConfig =
     [InitialState (tagged ''state''), State ''state'' [OuterState ''state'' []]]"

definition noInitialConfig :: "(BaseStateOrEvent, BaseStateOrEvent) config_call list" where
  "noInitialConfig = [State ''state1'' (definitionScript state1Definition)]"


definition toStringConfig :: "(BaseStateOrEvent, BaseStateOrEvent) config_call list" where
  "toStringConfig =
     [InitialState (tagged ''toString''), State ''state1'' (definitionScript state1Definition)]"

definition toStringMachine :: "(BaseStateOrEvent, BaseStateOrEvent) StateMachine" where
  "toStringMachine = snd (constructor plainRuntime (Some toStringConfig))"

section \<open>The Set operations\<close>

lemma members_Nil [simp]: "members [] = []"
  by (simp add: members_def)

lemma members_Cons [simp]:
  "members (e # es) = (case e of None \<Rightarrow> members es | Some l \<Rightarrow> l # members es)"
  by (cases e) (simp_all add: members_def)

lemma members_append [simp]: "members (xs @ ys) = members xs @ members ys"
  by (simp add: members_def)

lemma set_members: "l \<in> set (members es) \<longleftrightarrow> Some l \<in> set es"
  by (induction es) (auto split: option.splits)

lemma members_set_delete: "members (set_delete v es) = remove1 v (members es)"
  by (induction es) (auto split: option.splits)

lemma member_fold_set_delete:
  "Some l \<in> set es \<Longrightarrow> l \<notin> set us \<Longrightarrow> Some l \<in> set (fold set_delete us es)"
proof (induction us arbitrary: es)
  case Nil
  then show ?case by simp
next
  case (Cons u us)
  from Cons.prems have "l \<in> set (remove1 u (members es))"
    by (auto simp: set_members)
  then have "Some l \<in> set (set_delete u es)"
    by (simp add: set_members [symmetric] members_set_delete)
  with Cons show ?case by simp
qed

lemma members_set_add:
  "members (set_add v es) = (if v \<in> set (members es) then members es else members es @ [v])"
  by (simp add: set_members)


lemma filter_absent: "v \<notin> set xs \<Longrightarrow> filter (\<lambda>l. l \<noteq> v) xs = xs"
  by (induction xs) auto

lemma remove1_distinct: "distinct xs \<Longrightarrow> remove1 v xs = filter (\<lambda>l. l \<noteq> v) xs"
  by (induction xs) (auto simp: filter_absent)

lemma length_fold_set_delete: "length (fold set_delete us es) = length es"
  by (induction us arbitrary: es) (simp_all add: length_set_delete)

lemma set_members_drop: "set (members (drop j es)) \<subseteq> set (members es)"
  using set_drop_subset [of j es] by (auto simp: set_members)

lemma members_drop_set_delete:
  "distinct (members es) \<Longrightarrow>
     members (drop j (set_delete v es)) = filter (\<lambda>l. l \<noteq> v) (members (drop j es))"
proof (induction es arbitrary: j)
  case Nil
  then show ?case by simp
next
  case (Cons e es)
  from Cons.prems have dist: "distinct (members es)"
    by (simp split: option.splits)
  show ?case
  proof (cases j)
    case 0
    have "members (set_delete v (e # es)) = filter (\<lambda>l. l \<noteq> v) (members (e # es))"
      unfolding members_set_delete by (rule remove1_distinct [OF Cons.prems])
    with 0 show ?thesis by simp
  next
    case (Suc j')
    show ?thesis
    proof (cases "e = Some v")
      case True
      with Cons.prems have "v \<notin> set (members es)" by simp
      with set_members_drop [of j' es] have "v \<notin> set (members (drop j' es))" by blast
      then have "filter (\<lambda>l. l \<noteq> v) (members (drop j' es)) = members (drop j' es)"
        by (rule filter_absent)
      with True Suc show ?thesis by simp
    next
      case False
      with Suc Cons.IH [OF dist, of j'] show ?thesis by simp
    qed
  qed
qed

lemma members_drop_fold_set_delete:
  "distinct (members es) \<Longrightarrow>
     members (drop j (fold set_delete us es)) = filter (\<lambda>l. l \<notin> set us) (members (drop j es))"
proof (induction us arbitrary: es)
  case Nil
  then show ?case by simp
next
  case (Cons u us)
  have dist: "distinct (members (set_delete u es))"
    using Cons.prems by (simp add: members_set_delete)
  have "members (drop j (fold set_delete (u # us) es)) =
      filter (\<lambda>l. l \<notin> set us) (members (drop j (set_delete u es)))"
    using Cons.IH [OF dist] by simp
  also have "\<dots> = filter (\<lambda>l. l \<notin> set us) (filter (\<lambda>l. l \<noteq> u) (members (drop j es)))"
    by (simp add: members_drop_set_delete [OF Cons.prems])
  also have "\<dots> = filter (\<lambda>l. l \<notin> set (u # us)) (members (drop j es))"
    by (simp add: conj_commute)
  finally show ?case .
qed

lemma members_fold_set_delete:
  "distinct (members es) \<Longrightarrow>
     members (fold set_delete us es) = filter (\<lambda>l. l \<notin> set us) (members es)"
  using members_drop_fold_set_delete [of es 0 us] by simp

section \<open>The listeners that a round calls\<close>





lemma notified_first: "ms \<noteq> [] \<Longrightarrow> hd (notified L p c ev ms) = hd ms"
  by (cases ms) simp_all



lemma notifiedThrows_Nil [simp]: "notifiedThrows L p c ev [] = None"
  by (simp add: notifiedThrows_def)

lemma filter_stops_throws:
  "throws (L k p c ev) = Some e \<Longrightarrow> filter (\<lambda>l. \<not> stops L p c ev k l) ms = []"
  by (simp add: stops_def)

lemma filter_stops_returns:
  "throws (L k p c ev) = None \<Longrightarrow>
     filter (\<lambda>l. \<not> stops L p c ev k l) ms = filter (\<lambda>l. l \<notin> set (unsubscribes (L k p c ev))) ms"
  by (simp add: stops_def)

lemma notifiedThrows_Cons:
  "notifiedThrows L p c ev (k # ms) =
     (case throws (L k p c ev) of
        Some e \<Rightarrow> Some e
      | None \<Rightarrow> notifiedThrows L p c ev (filter (\<lambda>l. l \<notin> set (unsubscribes (L k p c ev))) ms))"
proof (cases "throws (L k p c ev)")
  case (Some e)
  then show ?thesis by (simp add: notifiedThrows_def filter_stops_throws)
next
  case None
  then show ?thesis
    by (simp add: notifiedThrows_def filter_stops_returns split: list.split)
qed


section \<open>The notification loop\<close>

lemma fold_unsubscribe_eq:
  "fold unsubscribe us m = m\<lparr>listeners := fold set_delete us (listeners m)\<rparr>"
  by (induction us arbitrary: m) (auto simp: unsubscribe_def)

lemma invokeListener_eq:
  "invokeListener L l p c ev m =
     (throws (L l p c ev),
      m\<lparr>calls := calls m @ [ListenerCalled l p c ev],
        listeners := fold set_delete (unsubscribes (L l p c ev)) (listeners m)\<rparr>)"
  by (simp add: invokeListener_def Let_def fold_unsubscribe_eq)


text \<open>
  What the loop does, from index \<open>i\<close> on, when no listener is an entry twice: it
  calls the listeners \<open>notified\<close> of the members that are left from \<open>i\<close> on, ends as
  \<open>notifiedThrows\<close> says, and leaves as members those whose unsubscribe function no
  listener it called has called.
\<close>

lemma notifyListeners_notified:
  assumes "distinct (members (listeners m))"
  shows "fst (notifyListeners L p c ev i m) =
           notifiedThrows L p c ev (members (drop i (listeners m))) \<and>
         calls (snd (notifyListeners L p c ev i m)) =
           calls m @ map (\<lambda>l. ListenerCalled l p c ev)
             (notified L p c ev (members (drop i (listeners m)))) \<and>
         members (listeners (snd (notifyListeners L p c ev i m))) =
           filter (\<lambda>l. \<forall>k \<in> set (notified L p c ev (members (drop i (listeners m)))).
                      l \<notin> set (unsubscribes (L k p c ev)))
             (members (listeners m))"
  using assms
proof (induction n \<equiv> "length (listeners m) - i" arbitrary: i m)
  case 0
  then show ?case by (simp add: notifyListeners.simps [of L p c ev i m])
next
  case (Suc n)
  then have lt: "i < length (listeners m)" by simp
  have dr: "drop i (listeners m) = listeners m ! i # drop (Suc i) (listeners m)"
    using lt by (simp add: Cons_nth_drop_Suc)
  show ?case
  proof (cases "listeners m ! i")
    case None
    have eq: "notifyListeners L p c ev i m = notifyListeners L p c ev (Suc i) m"
      using lt None by (simp add: notifyListeners.simps [of L p c ev i m])
    have mem: "members (drop i (listeners m)) = members (drop (Suc i) (listeners m))"
      using dr None by simp
    from Suc.hyps(1) [of m "Suc i"] Suc.hyps(2) Suc.prems show ?thesis
      unfolding eq mem by simp
  next
    case (Some l)
    let ?us = "unsubscribes (L l p c ev)"
    let ?rest = "members (drop (Suc i) (listeners m))"
    define m1 where "m1 = m\<lparr>calls := calls m @ [ListenerCalled l p c ev],
        listeners := fold set_delete ?us (listeners m)\<rparr>"
    have inv: "invokeListener L l p c ev m = (throws (L l p c ev), m1)"
      by (simp add: invokeListener_eq m1_def)
    have mem: "members (drop i (listeners m)) = l # ?rest"
      using dr Some by simp
    have after: "members (listeners m1) = filter (\<lambda>x. x \<notin> set ?us) (members (listeners m))"
      by (simp add: m1_def members_fold_set_delete [OF Suc.prems])
    show ?thesis
    proof (cases "throws (L l p c ev)")
      case thrown: (Some e)
      have eq: "notifyListeners L p c ev i m = (Some e, m1)"
        using lt Some inv thrown by (simp add: notifyListeners.simps [of L p c ev i m])
      show ?thesis
        unfolding eq mem
        using thrown after
        by (simp add: notifiedThrows_Cons filter_stops_throws m1_def)
    next
      case None
      have eq: "notifyListeners L p c ev i m = notifyListeners L p c ev (Suc i) m1"
        using lt Some inv None by (simp add: notifyListeners.simps [of L p c ev i m])
      have dist1: "distinct (members (listeners m1))"
        using Suc.prems by (simp add: after)
      have len: "n = length (listeners m1) - Suc i"
        using Suc.hyps(2) by (simp add: m1_def length_fold_set_delete)
      have rest1: "members (drop (Suc i) (listeners m1)) = filter (\<lambda>x. x \<notin> set ?us) ?rest"
        by (simp add: m1_def members_drop_fold_set_delete [OF Suc.prems])
      have c1: "calls m1 = calls m @ [ListenerCalled l p c ev]"
        by (simp add: m1_def)
      note ih = Suc.hyps(1) [OF len dist1, unfolded rest1 after c1]
      show ?thesis
        unfolding eq mem
        using ih None
        by (simp add: notifiedThrows_Cons filter_stops_returns conj_commute)
    qed
  qed
qed

section \<open>The builder: what it leaves alone, and the scope stack\<close>

lemma shift_fields [simp]:
  "currentState (shift m) = currentState m"
  "configuration (shift m) = configuration m"
  "listeners (shift m) = listeners m"
  "calls (shift m) = calls m"
  "timers (shift m) = timers m"
  by (simp_all add: shift_def)

lemma initialState_host_stack:
  "initialState s m = (r, m') \<Longrightarrow> sameHost m m' \<and> scopeStack m' = scopeStack m"
  by (auto simp: initialState_def sameHost_def split: option.splits)

lemma captured_entry_host_stack:
  "captured_entry R k c m = (r, m') \<Longrightarrow> sameHost m m' \<and> scopeStack m' = scopeStack m"
  by (auto simp: captured_entry_def sameHost_def split: option.splits prod.splits)

lemma run_state_host_stack:
  "run_state_call R c x = (r, m', sc') \<Longrightarrow>
     sameHost (fst x) m' \<and> (r = None \<longrightarrow> scopeStack m' = scopeStack (fst x))"
  "run_state_calls R cs x = (r, m', sc') \<Longrightarrow>
     sameHost (fst x) m' \<and> (r = None \<longrightarrow> scopeStack m' = scopeStack (fst x))"
  "state_entry R name cs m = (r, m') \<Longrightarrow>
     sameHost m m' \<and> (r = None \<longrightarrow> scopeStack m' = scopeStack m)"
proof (induction R c x and R cs x and R name cs m arbitrary: r m' sc' and r m' sc' and r m'
    rule: run_state_call_run_state_calls_state_entry.induct)
  case (1 R c m sc)
  then show ?case by (auto simp: sameHost_def split: prod.splits)
next
  case (2 R k c m sc)
  then show ?case
    by (auto split: prod.splits dest: captured_entry_host_stack)
next
  case (3 R s m sc)
  then show ?case
    by (auto split: prod.splits dest: initialState_host_stack)
next
  case (4 R name body m sc)
  then show ?case by (auto split: prod.splits)
next
  case (5 R x)
  then show ?case by (auto simp: sameHost_def)
next
  case (6 R c cs x)
  obtain r1 m1 sc1 where first: "run_state_call R c x = (r1, m1, sc1)"
    by (cases "run_state_call R c x") auto
  note h1 = "6.IH"(1) [OF first]
  show ?case
  proof (cases r1)
    case (Some e)
    with first "6.prems" h1 show ?thesis by simp
  next
    case None
    with first "6.prems" have rest: "run_state_calls R cs (m1, sc1) = (r, m', sc')" by simp
    from "6.IH"(2) [OF first [symmetric] _ rest] None
    have "sameHost m1 m' \<and> (r = None \<longrightarrow> scopeStack m' = scopeStack m1)" by simp
    with h1 None show ?thesis by (auto simp: sameHost_def)
  qed
next
  case (7 R name body m)
  show ?case
  proof (cases "checkConfigScope m")
    case (Some e)
    with "7.prems" show ?thesis by (simp add: state_entry.simps sameHost_def)
  next
    case None
    obtain r1 m1 sc1 where run: "run_state_calls R body (unshift ''state'' m, newStateConfiguration) = (r1, m1, sc1)"
      by (cases "run_state_calls R body (unshift ''state'' m, newStateConfiguration)") auto
    note h = "7.IH" [OF None run]
    show ?thesis
      using "7.prems" None run h
      by (cases r1) (auto simp: state_entry.simps sameHost_def unshift_def shift_def)
  qed
qed

lemma run_config_call_host_stack:
  "run_config_call R c m = (r, m') \<Longrightarrow>
     sameHost m m' \<and> (r = None \<longrightarrow> scopeStack m' = scopeStack m)"
  by (cases c)
    (auto dest: initialState_host_stack captured_entry_host_stack run_state_host_stack(3))

lemma run_config_host_stack:
  "run_config_calls R cs m = (r, m') \<Longrightarrow>
     sameHost m m' \<and> (r = None \<longrightarrow> scopeStack m' = scopeStack m)"
proof (induction cs arbitrary: m)
  case Nil
  then show ?case by (auto simp: sameHost_def)
next
  case (Cons c cs)
  obtain r1 m1 where first: "run_config_call R c m = (r1, m1)"
    by (cases "run_config_call R c m") auto
  note h1 = run_config_call_host_stack [OF first]
  show ?case
  proof (cases r1)
    case (Some e)
    with first Cons.prems h1 show ?thesis by simp
  next
    case None
    with first Cons.prems have "run_config_calls R cs m1 = (r, m')" by simp
    from Cons.IH [OF this] h1 None show ?thesis by (auto simp: sameHost_def)
  qed
qed

lemma out_of_scope_initialState:
  "stackTop (scopeStack m) \<noteq> Some ''config'' \<Longrightarrow>
     \<exists>msg. initialState s m = (Some (Error msg), m) \<and> quotedName msg = ''initialState''"
  by (simp add: initialState_def checkConfigScope_def quotedName_def)

lemma out_of_scope_state:
  "stackTop (scopeStack m) \<noteq> Some ''config'' \<Longrightarrow>
     \<exists>msg. state_entry R name body m = (Some (Error msg), m) \<and> quotedName msg = ''initialState''"
  by (simp add: state_entry.simps checkConfigScope_def quotedName_def)

lemma out_of_scope_onEnter:
  "stackTop (scopeStack m) \<noteq> Some ''state'' \<Longrightarrow>
     \<exists>msg. onEnter_entry cb m sc = (Some (Error msg), sc) \<and> quotedName msg = ''onEnter''"
  by (simp add: onEnter_entry_def checkStateScope_def quotedName_def)

lemma out_of_scope_onExit:
  "stackTop (scopeStack m) \<noteq> Some ''state'' \<Longrightarrow>
     \<exists>msg. onExit_entry cb m sc = (Some (Error msg), sc) \<and> quotedName msg = ''onExit''"
  by (simp add: onExit_entry_def checkStateScope_def quotedName_def)

lemma out_of_scope_on:
  "stackTop (scopeStack m) \<noteq> Some ''state'' \<Longrightarrow>
     \<exists>msg. on_entry R t cb m sc = (Some (Error msg), sc) \<and> quotedName msg = ''on''"
  by (simp add: on_entry_def checkStateScope_def quotedName_def)

text \<open>
  When the constructor has returned, the scope stack is empty (unless its last
  statement read the state definition through an installed prototype).
\<close>

lemma constructed_stack_empty:
  assumes "constructor R (Some script) = (None, m)"
    and "run_config_calls R script (unshift ''config'' newStateMachine) = (r1, m1)"
    and "\<forall>s. currentState m1 = Some s \<longrightarrow> get (configuration m1) (type s) \<noteq> Through"
  shows "scopeStack m = []"
proof -
  from assms(1,2) have r1: "r1 = None"
    by (cases r1) (simp_all add: constructor_def)
  with run_config_host_stack [OF assms(2)] have st: "scopeStack (shift m1) = []"
    by (simp add: shift_def unshift_def newStateMachine_def)
  have "scopeStack (snd (invokeOnEnter R s (shift m1))) = scopeStack (shift m1)"
    if "currentState m1 = Some s" for s
    using assms(3) that
    by (cases "get (configuration m1) (type s)")
      (simp_all add: invokeOnEnter_def shift_def found_def split: option.splits)
  with assms(1,2) r1 have "scopeStack m = scopeStack (shift m1)"
    by (auto simp: constructor_def Let_def shift_def split: option.splits if_splits)
  with st show ?thesis by simp
qed

section \<open>Dispatch, step by step\<close>

lemma transition_found:
  "currentState m = Some a \<Longrightarrow> found (get (configuration m) (type a)) = Some stateDefinition \<Longrightarrow>
     transition R L event m = dispatch R L stateDefinition a event m"
  by (cases "get (configuration m) (type a)") (simp_all add: transition_def found_def)

lemma dispatch_found:
  "found (get (on stateDefinition) (type event)) = Some onEvent \<Longrightarrow>
     dispatch R L stateDefinition a event m = callRule R L stateDefinition onEvent a event m"
  by (cases "get (on stateDefinition) (type event)") (simp_all add: dispatch_def found_def)

lemma transition_rule:
  "currentState m = Some a \<Longrightarrow> found (get (configuration m) (type a)) = Some stateDefinition \<Longrightarrow>
   found (get (on stateDefinition) (type event)) = Some onEvent \<Longrightarrow>
     transition R L event m = callRule R L stateDefinition onEvent a event m"
  by (simp add: transition_found dispatch_found)







section \<open>The example machine, evaluated\<close>

lemmas dictionary_defs =
  get_def found_def assign_def keys_def emptyObject_def objectPrototypeNames_def

lemmas builder_defs =
  constructor_def newStateMachine_def initialState_def checkConfigScope_def checkStateScope_def
  stackTop_def unshift_def shift_def onEnter_entry_def onExit_entry_def on_entry_def
  newStateConfiguration_def invokeOnEnter_def captured_entry_def state_entry.simps
  dictionary_defs

lemmas example_defs =
  exampleConfig_def definitionScript_def state1Definition_def state2Definition_def
  state4Definition_def state1Rules_def state2Rules_def tagged_def exampleTable_def

lemma run_exampleConfig:
  "run_config_calls R exampleConfig (unshift ''config'' newStateMachine) =
     (None,
      \<lparr>currentState = Some (tagged ''state1''), configuration = exampleTable,
       listeners = [], scopeStack = [''config''], calls = [], timers = []\<rparr>)"
  by (simp add: builder_defs example_defs)

lemma constructor_exampleConfig:
  "constructor R (Some exampleConfig) =
     (None,
      \<lparr>currentState = Some (tagged ''state1''), configuration = exampleTable,
       listeners = [], scopeStack = [],
       calls = [OnEnterCalled (tagged ''state1'') (Some (tagged ''state1''))],
       timers = []\<rparr>)"
  by (simp add: constructor_def run_exampleConfig shift_def invokeOnEnter_def dictionary_defs
      exampleTable_def state1Definition_def tagged_def)

lemma exampleMachine_eq:
  "exampleMachine =
     \<lparr>currentState = Some (tagged ''state1''), configuration = exampleTable,
      listeners = [], scopeStack = [],
      calls = [OnEnterCalled (tagged ''state1'') (Some (tagged ''state1''))],
      timers = []\<rparr>"
  by (simp add: exampleMachine_def constructor_exampleConfig)

lemma exampleSubscribed_eq:
  "exampleSubscribed =
     \<lparr>currentState = Some (tagged ''state1''), configuration = exampleTable,
      listeners = [Some 7], scopeStack = [],
      calls = [OnEnterCalled (tagged ''state1'') (Some (tagged ''state1'')),
               ListenerCalled 7 None (Some (tagged ''state1'')) None],
      timers = []\<rparr>"
  by (simp add: exampleSubscribed_def exampleMachine_eq subscribe_def invokeListener_def
      exampleListeners_def)






lemmas dispatch_defs =
  transition_def dispatch_def callRule_def complete_def onEventArgs_def invokeOnExit_def
  invokeOnEnter_def invokeListener_def unsubscribe_def notifyListeners.simps newCalls_def Let_def
  dictionary_defs

lemmas example_dispatch_defs =
  tagged_def state1Definition_def state1Rules_def state2Definition_def state2Rules_def
  state4Definition_def exampleTable_def exampleListeners_def

lemma strandedMachine_eq:
  "strandedMachine =
     \<lparr>currentState = Some (tagged ''state3''), configuration = exampleTable,
      listeners = [Some 7], scopeStack = [],
      calls = [OnEnterCalled (tagged ''state1'') (Some (tagged ''state1'')),
               ListenerCalled 7 None (Some (tagged ''state1'')) None,
               RuleCalled (tagged ''state1'') (tagged ''leave''),
               OnExitCalled (tagged ''state1'') (Some (tagged ''state1'')),
               ListenerCalled 7 (Some (tagged ''state1'')) (Some (tagged ''state3''))
                 (Some (tagged ''leave''))],
      timers = []\<rparr>"
  by (simp add: strandedMachine_def exampleSubscribed_eq dispatch_defs example_dispatch_defs)


lemma run_noInitialConfig:
  "run_config_calls R noInitialConfig (unshift ''config'' newStateMachine) =
     (None,
      \<lparr>currentState = None, configuration = \<lparr>own = [(''state1'', state1Definition)], proto = None\<rparr>,
       listeners = [], scopeStack = [''config''], calls = [], timers = []\<rparr>)"
  by (simp add: builder_defs example_defs noInitialConfig_def)



lemma run_toStringConfig:
  "run_config_calls R toStringConfig (unshift ''config'' newStateMachine) =
     (None,
      \<lparr>currentState = Some (tagged ''toString''),
       configuration = \<lparr>own = [(''state1'', state1Definition)], proto = None\<rparr>,
       listeners = [], scopeStack = [''config''], calls = [], timers = []\<rparr>)"
  by (simp add: builder_defs example_defs toStringConfig_def)

lemma toStringMachine_eq:
  "toStringMachine =
     \<lparr>currentState = Some (tagged ''toString''),
      configuration = \<lparr>own = [(''state1'', state1Definition)], proto = None\<rparr>,
      listeners = [], scopeStack = [], calls = [], timers = []\<rparr>"
  by (simp add: toStringMachine_def constructor_def run_toStringConfig shift_def invokeOnEnter_def
      dictionary_defs tagged_def)

section \<open>The registry stays a Set\<close>

text \<open>
  The theorems below about rounds of notifications assume that no listener is an
  entry of the registry twice.  That holds of every machine the constructor returns
  and is kept by \<open>subscribe\<close>, \<open>unsubscribe\<close> and \<open>transition\<close>, given that the
  runtime keeps it where the model does not follow it (\<open>keepsSet\<close>).
\<close>

lemma properSet_unsubscribe: "properSet m \<Longrightarrow> properSet (unsubscribe l m)"
  by (simp add: properSet_def unsubscribe_def members_set_delete)

lemma properSet_fold_unsubscribe: "properSet m \<Longrightarrow> properSet (fold unsubscribe us m)"
  by (induction us arbitrary: m) (simp_all add: properSet_unsubscribe)

lemma properSet_invokeListener:
  "properSet m \<Longrightarrow> properSet (snd (invokeListener L l p c ev m))"
  using properSet_fold_unsubscribe [of "m\<lparr>calls := calls m @ [ListenerCalled l p c ev]\<rparr>"]
  by (simp add: invokeListener_def Let_def properSet_def)

lemma properSet_subscribe: "properSet m \<Longrightarrow> properSet (snd (subscribe L l m))"
  unfolding subscribe_def
  by (rule properSet_invokeListener) (simp add: properSet_def members_set_add del: set_add.simps)

lemma properSet_notifyListeners:
  "properSet m \<Longrightarrow> properSet (snd (notifyListeners L p c ev i m))"
  using notifyListeners_notified [of m L p c ev i] by (simp add: properSet_def)

lemma properSet_invokeOnExit: "properSet m \<Longrightarrow> properSet (snd (invokeOnExit sd a m))"
  by (simp add: invokeOnExit_def properSet_def split: option.split)

lemma properSet_invokeOnEnter:
  "keepsSet R \<Longrightarrow> properSet m \<Longrightarrow> properSet (snd (invokeOnEnter R b m))"
  by (cases "get (configuration m) (type b)")
    (auto simp: invokeOnEnter_def properSet_def keepsSet_def split: option.split)

lemma properSet_complete:
  assumes "keepsSet R" and "properSet m"
  shows "properSet (snd (complete R L sd event d a m))"
proof -
  define step where "step = (case state d of
      None \<Rightarrow> (None, m)
    | Some next \<Rightarrow>
        (case invokeOnExit sd a m of
           (Some e, m2) \<Rightarrow> (Some e, m2)
         | (None, m2) \<Rightarrow> invokeOnEnter R next (m2\<lparr>currentState := Some next\<rparr>)))"
  have p3: "properSet (snd step)"
  proof (cases "state d")
    case None
    with assms(2) show ?thesis by (simp add: step_def)
  next
    case (Some b)
    obtain r2 m2 where e2: "invokeOnExit sd a m = (r2, m2)"
      by (cases "invokeOnExit sd a m") auto
    with properSet_invokeOnExit [OF assms(2), of sd a] have p2: "properSet m2" by simp
    then have "properSet (m2\<lparr>currentState := Some b\<rparr>)" by (simp add: properSet_def)
    from properSet_invokeOnEnter [OF assms(1) this, of b] Some e2 p2 show ?thesis
      by (cases r2) (simp_all add: step_def)
  qed
  obtain r3 m3 where s3: "step = (r3, m3)" by (cases step) auto
  with p3 have pm3: "properSet m3" by simp
  obtain r4 m4 where n4: "notifyListeners L (Some a)
     (Some (case state d of None \<Rightarrow> a | Some next \<Rightarrow> next)) (Some event) 0 m3 = (r4, m4)"
    by fastforce
  with properSet_notifyListeners [OF pm3] have pm4: "properSet m4"
    by (metis snd_conv)
  then have tm: "properSet (m4\<lparr>timers := ts\<rparr>)" for ts by (simp add: properSet_def)
  have "complete R L sd event d a m =
    (case step of
       (Some e, m3) \<Rightarrow> (Some e, m3)
     | (None, m3) \<Rightarrow>
        (case notifyListeners L (Some a)
           (Some (case state d of None \<Rightarrow> a | Some next \<Rightarrow> next)) (Some event) 0 m3 of
          (Some e, m4) \<Rightarrow> (Some e, m4)
        | (None, m4) \<Rightarrow>
           (case sideEffect d of
              None \<Rightarrow> (None, m4)
            | Some effect \<Rightarrow> (None, m4\<lparr>timers := timers m4 @ [effect]\<rparr>))))"
    unfolding step_def by (simp add: complete_def)
  then show ?thesis
    using s3 n4 pm3 pm4 tm
    by (cases r3; cases r4; cases "sideEffect d") simp_all
qed

lemma properSet_callRule:
  assumes "keepsSet R" and "properSet m"
  shows "properSet (snd (callRule R L sd rule a event m))"
proof -
  have "properSet (m\<lparr>calls := cs\<rparr>)" for cs
    using assms(2) by (simp add: properSet_def)
  with properSet_complete [OF assms(1)] show ?thesis
    by (simp add: callRule_def split: sum.split)
qed

lemma properSet_dispatch:
  assumes "keepsSet R" and "properSet m"
  shows "properSet (snd (dispatch R L sd a event m))"
proof (cases "get (on sd) (type event)")
  case (Builtin name)
  have "properSet (snd (invokeOnExit sd a m))"
    by (rule properSet_invokeOnExit [OF assms(2)])
  then have "properSet (snd (case invokeOnExit sd a m of
      (Some e, m2) \<Rightarrow> (Some e, m2)
    | (None, m2) \<Rightarrow> (Some TypeError, m2\<lparr>currentState := None\<rparr>)))"
    by (cases "invokeOnExit sd a m") (auto simp: properSet_def split: option.split)
  with Builtin assms properSet_complete [OF assms] show ?thesis
    by (simp add: dispatch_def)
next
  case Through
  with assms show ?thesis by (simp add: dispatch_def keepsSet_def)
qed (use assms properSet_callRule [OF assms] in \<open>simp_all add: dispatch_def\<close>)

lemma properSet_transition:
  assumes "keepsSet R" and "properSet m"
  shows "properSet (snd (transition R L event m))"
proof (cases "currentState m")
  case None
  with assms show ?thesis by (simp add: transition_def)
next
  case (Some a)
  show ?thesis
  proof (cases "get (configuration m) (type a)")
    case Through
    with Some assms show ?thesis by (simp add: transition_def keepsSet_def)
  qed (use Some assms properSet_dispatch [OF assms] in \<open>simp_all add: transition_def\<close>)
qed

lemma properSet_constructor:
  assumes "keepsSet R"
  shows "properSet (snd (constructor R cfg))"
proof (cases cfg)
  case None
  then show ?thesis by (simp add: constructor_def properSet_def newStateMachine_def)
next
  case (Some script)
  obtain r b where run: "run_config_calls R script (unshift ''config'' newStateMachine) = (r, b)"
    by (cases "run_config_calls R script (unshift ''config'' newStateMachine)") auto
  from run_config_host_stack [OF run] have "listeners b = []"
    by (simp add: sameHost_def unshift_def newStateMachine_def)
  then have pb: "properSet b" and ps: "properSet (shift b)"
    by (simp_all add: properSet_def shift_def)
  from properSet_invokeOnEnter [OF assms ps] pb ps show ?thesis
    using Some run
    by (cases r) (auto simp: constructor_def Let_def split: option.splits)
qed

section \<open>Helpers for the claims\<close>


lemma filter_moveCalls [simp]: "filter (isNotification l) (moveCalls m sd a d) = []"
  by (simp add: moveCalls_def exitCalls_def enterCalls_def split: option.split)

lemma filter_exitCalls [simp]: "filter (isNotification l) (exitCalls sd a) = []"
  by (simp add: exitCalls_def split: option.split)



section \<open>The claims\<close>

subsection \<open>Dispatch without a rule\<close>

text \<open>
  C7.  The claim says that a dispatch is a no-op (it returns without calling
  \<open>onEnter\<close> or \<open>onExit\<close> and without changing the current state) when the rule
  table has no entry for the discriminant of the current state, or that entry has no
  rule for the event.  The code returns at once when the read gives \<^verbatim>\<open>undefined\<close>
  (\<open>transition_undefined\<close> above), but the two tables are plain objects, and a
  discriminant that names a member of \<^verbatim>\<open>Object.prototype\<close> reads as that member.
  The state \<open>state1\<close> of the example machine has no rule for the events
  \<^verbatim>\<open>constructor\<close> and \<^verbatim>\<open>toString\<close>.  The dispatch of \<^verbatim>\<open>constructor\<close> calls \<open>onExit\<close>
  and \<open>onEnter\<close> of \<open>state1\<close> and notifies listener 7; the dispatch of
  \<^verbatim>\<open>toString\<close> calls \<open>onExit\<close>, leaves the machine without a current state and
  throws.  And in a current state named \<^verbatim>\<open>toString\<close>, for which the table has no
  entry, every dispatch throws.
\<close>

theorem inherited_member_taken_for_an_entry:
  "''constructor'' \<notin> set (keys (on state1Definition)) \<and>
   transition plainRuntime exampleListeners (tagged ''constructor'') exampleSubscribed =
     (None,
      exampleSubscribed\<lparr>calls := calls exampleSubscribed @
        [OnExitCalled (tagged ''state1'') (Some (tagged ''state1'')),
         OnEnterCalled (tagged ''state1'') (Some (tagged ''state1'')),
         ListenerCalled 7 (Some (tagged ''state1'')) (Some (tagged ''state1''))
           (Some (tagged ''constructor''))]\<rparr>) \<and>
   ''toString'' \<notin> set (keys (on state1Definition)) \<and>
   transition plainRuntime exampleListeners (tagged ''toString'') exampleSubscribed =
     (Some TypeError,
      exampleSubscribed\<lparr>calls := calls exampleSubscribed @
        [OnExitCalled (tagged ''state1'') (Some (tagged ''state1''))],
        currentState := None\<rparr>) \<and>
   currentState toStringMachine = Some (tagged ''toString'') \<and>
   ''toString'' \<notin> set (keys (configuration toStringMachine)) \<and>
   transition plainRuntime exampleListeners (tagged ''action1'') toStringMachine =
     (Some TypeError, toStringMachine)"
  by (simp add: exampleSubscribed_eq toStringMachine_eq dispatch_defs example_dispatch_defs)

subsection \<open>A rule that throws\<close>

text \<open>
  C6.  When the rule that a dispatch invokes throws \<open>e\<close>, \<open>transition\<close> throws \<open>e\<close>
  to its caller and the machine is as before the dispatch but for the log entry of
  the call of the rule itself: the current state is not replaced, no \<open>onExit\<close> or
  \<open>onEnter\<close> callback and no listener is called, and no timer is set.
\<close>

theorem rule_throws:
  assumes "currentState m = Some cur"
    and "found (get (configuration m) (type cur)) = Some stateDefinition"
    and "found (get (on stateDefinition) (type event)) = Some onEvent"
    and "onEvent (onEventArgs cur event) = Inl e"
  shows "transition R L event m = (Some e, m\<lparr>calls := calls m @ [RuleCalled cur event]\<rparr>)"
  using assms(4) by (simp add: transition_rule [OF assms(1-3)] callRule_def)

theorem rule_throws_witness:
  "transition plainRuntime exampleListeners (tagged ''fail'') exampleSubscribed =
     (Some (Error ''rule failed''),
      exampleSubscribed\<lparr>calls := calls exampleSubscribed @
        [RuleCalled (tagged ''state1'') (tagged ''fail'')]\<rparr>)"
proof -
  have cur: "currentState exampleSubscribed = Some (tagged ''state1'')"
    by (simp add: exampleSubscribed_eq)
  have sd: "found (get (configuration exampleSubscribed) (type (tagged ''state1''))) = Some state1Definition"
    by (simp add: exampleSubscribed_eq tagged_def exampleTable_def dictionary_defs)
  have rule: "found (get (on state1Definition) (type (tagged ''fail''))) = Some (\<lambda>args. Inl (Error ''rule failed''))"
    by (simp add: tagged_def state1Definition_def state1Rules_def dictionary_defs)
  have thrown: "(\<lambda>args. Inl (Error ''rule failed'')) (onEventArgs (tagged ''state1'') (tagged ''fail'')) = Inl (Error ''rule failed'')"
    by simp
  from rule_throws [OF cur sd rule thrown] show ?thesis .
qed

subsection \<open>Subscription\<close>

text \<open>
  C8.  \<open>subscribe L listener\<close> adds the listener to the registry and, before it
  returns, calls it exactly once, with \<open>previous = null\<close>, \<open>current\<close> the current state
  of the machine and \<open>event = null\<close>: that call is the one entry the log gains.
  \<open>subscribe\<close> throws what the listener throws.  The listener is a member when it is
  called, and still one afterwards unless it called its own unsubscribe function (one
  from an earlier subscription) during that call.
\<close>

theorem subscribe_notifies:
  "fst (subscribe L listener m) = throws (L listener None (currentState m) None) \<and>
   calls (snd (subscribe L listener m)) = calls m @ [ListenerCalled listener None (currentState m) None] \<and>
   currentState (snd (subscribe L listener m)) = currentState m \<and>
   Some listener \<in> set (set_add listener (listeners m)) \<and>
   listeners (snd (subscribe L listener m)) =
     fold set_delete (unsubscribes (L listener None (currentState m) None)) (set_add listener (listeners m)) \<and>
   (listener \<notin> set (unsubscribes (L listener None (currentState m) None)) \<longrightarrow>
     Some listener \<in> set (listeners (snd (subscribe L listener m))))"
  by (auto simp: subscribe_def invokeListener_def Let_def fold_unsubscribe_eq
      intro!: member_fold_set_delete)

theorem subscribe_notifies_witness:
  "fst (subscribe exampleListeners 7 exampleMachine) = None \<and>
   calls (snd (subscribe exampleListeners 7 exampleMachine)) =
     calls exampleMachine @ [ListenerCalled 7 None (Some (tagged ''state1'')) None] \<and>
   Some 7 \<in> set (listeners (snd (subscribe exampleListeners 7 exampleMachine)))"
proof -
  have quiet: "7 \<notin> set (unsubscribes (exampleListeners 7 None (currentState exampleMachine) None))"
    by (simp add: exampleListeners_def)
  have cur: "currentState exampleMachine = Some (tagged ''state1'')"
    by (simp add: exampleMachine_eq)
  from subscribe_notifies [of exampleListeners 7 exampleMachine] quiet cur show ?thesis
    by (simp add: exampleListeners_def)
qed

subsection \<open>The order of a transition\<close>




subsection \<open>Who is notified by a dispatch\<close>




subsection \<open>The same listener subscribed twice\<close>






subsection \<open>Unsubscribing during a round of notifications\<close>




subsection \<open>The scope guard\<close>

text \<open>
  C5.  The five entry points throw whenever the tag they need is not on top of the
  scope stack (\<open>out_of_scope_initialState\<close> to \<open>out_of_scope_on\<close> above, and
  \<open>constructed_stack_empty\<close> for a reference called after the construction), and
  the message of \<open>initialState\<close>, \<open>onEnter\<close>, \<open>onExit\<close> and \<open>on\<close> names the entry
  point.  The entry point \<open>state\<close> goes through \<^verbatim>\<open>_checkConfigScope\<close>, whose message
  is fixed: called inside a state definition callback, or through a reference kept
  until the constructor has returned, it throws an error that names \<open>initialState\<close>.
\<close>

theorem state_out_of_scope_names_initialState:
  "fst (constructor R (Some nestedStateConfig)) =
     Some (Error ''Call to `initialState` is allowed only from within the config callback, but not inside a state callback'') \<and>
   fst (state_entry R ''state'' [] exampleMachine) =
     Some (Error ''Call to `initialState` is allowed only from within the config callback, but not inside a state callback'') \<and>
   quotedName ''Call to `initialState` is allowed only from within the config callback, but not inside a state callback'' =
     ''initialState''"
  by (simp add: builder_defs nestedStateConfig_def exampleMachine_eq tagged_def quotedName_def)

subsection \<open>The first \<open>onEnter\<close>\<close>

text \<open>
  C9.  Let the configuration callback, run by the constructor, end with the result
  \<open>r\<close> and the machine \<open>b\<close>.  If it returned normally, recorded the initial state
  \<open>s\<close>, gave the table of state definitions a key, and registered an \<open>onEnter\<close>
  callback for the discriminant of \<open>s\<close>, then the constructor calls that callback
  with \<open>s\<close>, this is its only call into user code (the log is that one entry), the
  scope stack is empty again, and the constructor throws what the callback throws.
  If the callback threw, or recorded no initial state, or the table has no key, the
  constructor throws and has called no \<open>onEnter\<close>: the call comes after the checks.
  No dispatch can come before it, since the constructor has not returned yet.
\<close>

theorem initial_onEnter:
  assumes "run_config_calls R script (unshift ''config'' newStateMachine) = (r, b)"
  shows "(r = None \<and> currentState b = Some s \<and> keys (configuration b) \<noteq> [] \<and>
          found (get (configuration b) (type s)) = Some stateDefinition \<and>
          onEnter stateDefinition = Some cb \<longrightarrow>
            constructor R (Some script) = (cb s, (shift b)\<lparr>calls := [OnEnterCalled s (Some s)]\<rparr>) \<and>
            scopeStack (shift b) = []) \<and>
         (r \<noteq> None \<or> currentState b = None \<or> keys (configuration b) = [] \<longrightarrow>
            fst (constructor R (Some script)) \<noteq> None \<and>
            calls (snd (constructor R (Some script))) = [])"
proof -
  from run_config_host_stack [OF assms]
  have host: "calls b = []" and stack: "r = None \<longrightarrow> scopeStack b = [''config'']"
    by (simp_all add: sameHost_def unshift_def newStateMachine_def)
  show ?thesis
  proof (intro conjI impI)
    assume h: "r = None \<and> currentState b = Some s \<and> keys (configuration b) \<noteq> [] \<and>
          found (get (configuration b) (type s)) = Some stateDefinition \<and>
          onEnter stateDefinition = Some cb"
    then have en: "invokeOnEnter R s (shift b) =
        (cb s, (shift b)\<lparr>calls := [OnEnterCalled s (Some s)]\<rparr>)"
      using host
      by (cases "get (configuration b) (type s)")
        (simp_all add: invokeOnEnter_def found_def shift_def)
    from h assms show "constructor R (Some script) = (cb s, (shift b)\<lparr>calls := [OnEnterCalled s (Some s)]\<rparr>)"
      by (simp add: constructor_def Let_def en)
    from h stack show "scopeStack (shift b) = []"
      by (simp add: shift_def)
  next
    assume h: "r \<noteq> None \<or> currentState b = None \<or> keys (configuration b) = []"
    then show "fst (constructor R (Some script)) \<noteq> None"
      using assms by (cases r) (auto simp: constructor_def Let_def shift_def split: option.splits)
    from h show "calls (snd (constructor R (Some script))) = []"
      using assms host
      by (cases r) (auto simp: constructor_def Let_def shift_def split: option.splits)
  qed
qed

theorem initial_onEnter_witness:
  "constructor plainRuntime (Some exampleConfig) =
     (None,
      \<lparr>currentState = Some (tagged ''state1''), configuration = exampleTable,
       listeners = [], scopeStack = [],
       calls = [OnEnterCalled (tagged ''state1'') (Some (tagged ''state1''))],
       timers = []\<rparr>) \<and>
   fst (constructor plainRuntime (Some noInitialConfig)) = Some (Error ''No initial state provided'') \<and>
   calls (snd (constructor plainRuntime (Some noInitialConfig))) = []"
proof -
  let ?b = "\<lparr>currentState = Some (tagged ''state1''), configuration = exampleTable,
       listeners = [], scopeStack = [''config''], calls = [], timers = []\<rparr> ::
       (BaseStateOrEvent, BaseStateOrEvent) StateMachine"
  have passed: "None = (None :: error option) \<and> currentState ?b = Some (tagged ''state1'') \<and>
      keys (configuration ?b) \<noteq> [] \<and>
      found (get (configuration ?b) (type (tagged ''state1''))) = Some state1Definition \<and>
      onEnter state1Definition = Some (\<lambda>s. None)"
    by (simp add: tagged_def state1Definition_def exampleTable_def dictionary_defs)
  from initial_onEnter [OF run_exampleConfig, of "tagged ''state1''" state1Definition "\<lambda>s. None" plainRuntime] passed
  have one: "constructor plainRuntime (Some exampleConfig) =
      ((\<lambda>s. None) (tagged ''state1''),
       (shift ?b)\<lparr>calls := [OnEnterCalled (tagged ''state1'') (Some (tagged ''state1''))]\<rparr>)"
    by blast
  let ?n = "\<lparr>currentState = None,
       configuration = \<lparr>own = [(''state1'', state1Definition)], proto = None\<rparr>,
       listeners = [], scopeStack = [''config''], calls = [], timers = []\<rparr> ::
       (BaseStateOrEvent, BaseStateOrEvent) StateMachine"
  have failed: "None \<noteq> (None :: error option) \<or> currentState ?n = None \<or> keys (configuration ?n) = []"
    by simp
  from initial_onEnter [OF run_noInitialConfig, of "tagged ''state1''" state1Definition "\<lambda>s. None" plainRuntime] failed
  have two: "calls (snd (constructor plainRuntime (Some noInitialConfig))) = []"
    by blast
  have three: "fst (constructor plainRuntime (Some noInitialConfig)) = Some (Error ''No initial state provided'')"
    by (simp add: constructor_def run_noInitialConfig shift_def)
  from one two three show ?thesis
    by (simp add: shift_def)
qed

subsection \<open>States without a definition\<close>




end
